theory Spec2Isabelle
  imports Main
begin

section \<open>pymzn: the MiniZinc pipeline of \<open>pymzn/mzn/minizinc.py\<close>\<close>

text \<open>
  The module drives three external stages (\<open>mzn2fzn\<close>, a solver function, \<open>solns2out\<close>)
  and scans the text printed by \<open>solns2out\<close> for solution blocks and terminal markers.
  Python strings are modelled as \<open>string\<close>, one \<open>char\<close> per code point below 256;
  exceptions are values of the datatype \<open>exn\<close>, and a function that may raise returns
  \<open>exn + 'a\<close> with \<open>Inl\<close> for the raised exception.
\<close>

subsection \<open>String primitives of Python used by the module\<close>

abbreviation nl :: char where
  "nl \<equiv> CHR 0x0A"

text \<open>\<open>str.isspace\<close> on the code points below 256: TAB..CR, FS..US, space, NEL, NBSP.\<close>

definition is_space :: "char \<Rightarrow> bool" where
  "is_space c \<longleftrightarrow>
     (let n = (of_char c :: nat)
      in (9 \<le> n \<and> n \<le> 13) \<or> (28 \<le> n \<and> n \<le> 32) \<or> n = 133 \<or> n = 160)"

text \<open>\<open>s.strip()\<close>: drop the whitespace at both ends.\<close>

definition strip :: "string \<Rightarrow> string" where
  "strip s = rev (dropWhile is_space (rev (dropWhile is_space s)))"

text \<open>\<open>s.split('\n')\<close>: the pieces between newlines; the empty text gives one empty piece.\<close>

fun split_nl :: "string \<Rightarrow> string list" where
  "split_nl [] = [[]]"
| "split_nl (c # cs) =
     (if c = nl then [] # split_nl cs
      else (case split_nl cs of
              [] \<Rightarrow> [[c]]
            | l # ls \<Rightarrow> (c # l) # ls))"

text \<open>\<open>sep.join(xs)\<close>.\<close>

fun str_join :: "string \<Rightarrow> string list \<Rightarrow> string" where
  "str_join sep [] = []"
| "str_join sep [x] = x"
| "str_join sep (x # y # ys) = x @ sep @ str_join sep (y # ys)"

subsection \<open>Exceptions\<close>

text \<open>
  The three classes of the module derive from \<open>RuntimeError\<close> and call
  \<open>super().__init__\<close> with a literal; \<open>RuntimeError msg\<close> is the plain built-in
  raised with the captured \<open>stderr\<close>. The remaining constructors are the other
  exceptions that reach the module: the \<open>TypeError\<close> of a list/tuple concatenation,
  the \<open>FileNotFoundError\<close> of \<open>os.remove\<close>, and whatever a collaborator raises.
\<close>

datatype exn =
    RuntimeError string
  | MiniZincUnsatisfiableError
  | MiniZincUnknownError
  | MiniZincUnboundedError
  | TypeError
  | FileNotFoundError string
  | CollaboratorError string

text \<open>\<open>isinstance(e, RuntimeError)\<close>, from the class statements of the module.\<close>

fun is_RuntimeError :: "exn \<Rightarrow> bool" where
  "is_RuntimeError (RuntimeError _) = True"
| "is_RuntimeError MiniZincUnsatisfiableError = True"
| "is_RuntimeError MiniZincUnknownError = True"
| "is_RuntimeError MiniZincUnboundedError = True"
| "is_RuntimeError TypeError = False"
| "is_RuntimeError (FileNotFoundError _) = False"
| "is_RuntimeError (CollaboratorError _) = False"

text \<open>The message handed to \<open>RuntimeError.__init__\<close> by each class of the module.\<close>

fun runtime_message :: "exn \<Rightarrow> string option" where
  "runtime_message (RuntimeError msg) = Some msg"
| "runtime_message MiniZincUnsatisfiableError = Some ''The problem is unsatisfiable.''"
| "runtime_message MiniZincUnknownError = Some ''The solution of the problem is unknown.''"
| "runtime_message MiniZincUnboundedError = Some ''The problem is unbounded.''"
| "runtime_message _ = None"

subsection \<open>The line scan of \<open>solns2out\<close>\<close>

definition soln_sep :: string where
  "soln_sep = ''----------''"

definition search_complete_msg :: string where
  "search_complete_msg = ''==========''"

definition unsat_msg :: string where
  "unsat_msg = ''=====UNSATISFIABLE=====''"

definition unkn_msg :: string where
  "unkn_msg = ''=====UNKNOWN=====''"

definition unbnd_msg :: string where
  "unbnd_msg = ''=====UNBOUNDED=====''"

text \<open>
  The \<open>for line in lines\<close> loop with its two lists \<open>solns\<close> and \<open>curr_out\<close>; \<open>break\<close>
  and the end of the list both reach \<open>return solns\<close>, each \<open>raise\<close> leaves with \<open>Inl\<close>.
\<close>

fun scan_loop :: "string list \<Rightarrow> string list \<Rightarrow> string list \<Rightarrow> exn + string list" where
  "scan_loop solns curr_out [] = Inr solns"
| "scan_loop solns curr_out (l # ls) =
     (let line = strip l
      in if line = soln_sep then scan_loop (solns @ [str_join [nl] curr_out]) [] ls
         else if line = search_complete_msg then Inr solns
         else if line = unkn_msg then Inl MiniZincUnknownError
         else if line = unsat_msg then Inl MiniZincUnsatisfiableError
         else if line = unbnd_msg then Inl MiniZincUnboundedError
         else scan_loop solns (curr_out @ [line]) ls)"

text \<open>Lines 217 to 237: split the tool's output and scan it from empty lists.\<close>

definition solns2out_parse :: "string \<Rightarrow> exn + string list" where
  "solns2out_parse out = scan_loop [] [] (split_nl out)"

text \<open>
  A content line is one that reaches the final \<open>else\<close> of the loop: trimmed, it is none
  of the five markers.
\<close>

definition is_content :: "string \<Rightarrow> bool" where
  "is_content l \<longleftrightarrow>
     (let line = strip l
      in line \<noteq> soln_sep \<and> line \<noteq> search_complete_msg \<and> line \<noteq> unkn_msg
         \<and> line \<noteq> unsat_msg \<and> line \<noteq> unbnd_msg)"

text \<open>A stream's closed blocks: each a list of content lines with the separator line ending it.\<close>

definition closed_blocks :: "(string list \<times> string) list \<Rightarrow> bool" where
  "closed_blocks bs \<longleftrightarrow>
     list_all (\<lambda>(b, s). strip s = soln_sep \<and> list_all is_content b) bs"

definition block_lines :: "(string list \<times> string) list \<Rightarrow> string list" where
  "block_lines bs = concat (map (\<lambda>(b, s). b @ [s]) bs)"

definition block_texts :: "(string list \<times> string) list \<Rightarrow> string list" where
  "block_texts bs = map (\<lambda>(b, s). str_join [nl] (map strip b)) bs"

subsection \<open>The world outside: files and external calls\<close>

text \<open>
  The file system is the set of paths that are regular files. Every program the module
  starts and the solver function it is handed may change that set; the world also keeps
  the list of the external calls made so far, in order.
\<close>

datatype arg = ArgPair string string | ArgStr string | ArgNone

datatype event =
    Ev_run string "arg list" "string option"
  | Ev_fzn_fn "string option"

record world =
  files :: "string set"
  calls :: "event list"

text \<open>
  \<open>run(cmd(name, args), stdin=...)\<close> of \<open>pymzn.bin\<close>, taken as a parameter: on the
  command name, the argument list and the optional input it returns the captured output,
  or \<open>Inl stderr\<close> for a \<open>CalledProcessError\<close>, and the files it leaves.
\<close>

type_synonym runner =
  "string \<Rightarrow> arg list \<Rightarrow> string option \<Rightarrow> string set \<Rightarrow> (string + string) \<times> string set"

text \<open>The solver function \<open>fzn_fn(fzn_file, **fzn_args)\<close>, with its keyword arguments fixed.\<close>

type_synonym solver =
  "string option \<Rightarrow> string set \<Rightarrow> (exn + string) \<times> string set"

text \<open>
  What the module imports: the two command names of \<open>pymzn.config\<close>, the runner, the
  model adapter (lines 91 to 100: build the model, add the output statement, \<open>compile()\<close>,
  giving the path of the written model file), and the two functions of \<open>pymzn.dzn\<close>.
\<close>

record ('d, 'v) env =
  mzn2fzn_cmd :: string
  solns2out_cmd :: string
  run :: runner
  compile_model :: "string set \<Rightarrow> (exn + string) \<times> string set"
  dzn :: "'d \<Rightarrow> exn + string list"
  parse_dzn :: "string \<Rightarrow> exn + 'v"

definition call_run ::
  "('d, 'v) env \<Rightarrow> string \<Rightarrow> arg list \<Rightarrow> string option \<Rightarrow> world
     \<Rightarrow> (string + string) \<times> world" where
  "call_run env c args stdin w =
     (case run env c args stdin (files w) of
        (r, fs) \<Rightarrow> (r, \<lparr>files = fs, calls = calls w @ [Ev_run c args stdin]\<rparr>))"

definition call_fzn_fn :: "solver \<Rightarrow> string option \<Rightarrow> world \<Rightarrow> (exn + string) \<times> world" where
  "call_fzn_fn fzn_fn fzn_file w =
     (case fzn_fn fzn_file (files w) of
        (r, fs) \<Rightarrow> (r, \<lparr>files = fs, calls = calls w @ [Ev_fzn_fn fzn_file]\<rparr>))"

text \<open>\<open>os.path.isfile\<close> and \<open>os.remove\<close>; removing a path that is no file raises.\<close>

definition isfile :: "string \<Rightarrow> world \<Rightarrow> bool" where
  "isfile p w \<longleftrightarrow> p \<in> files w"

definition os_remove :: "string \<Rightarrow> world \<Rightarrow> (exn + unit) \<times> world" where
  "os_remove p w =
     (if p \<in> files w then (Inr (), w\<lparr>files := files w - {p}\<rparr>)
      else (Inl (FileNotFoundError p), w))"

text \<open>\<open>s.rfind(c)\<close>: the last index of \<open>c\<close>, or \<open>-1\<close>.\<close>

definition rfind :: "char \<Rightarrow> string \<Rightarrow> int" where
  "rfind c s =
     (case filter (\<lambda>i. s ! i = c) (rev [0..<length s]) of
        [] \<Rightarrow> - 1
      | i # _ \<Rightarrow> int i)"

text \<open>
  \<open>os.path.splitext(p)[0]\<close> on POSIX: cut at the last dot when it lies in the last path
  component and some character of that component before it is not a dot.
\<close>

definition splitext_root :: "string \<Rightarrow> string" where
  "splitext_root p =
     (let sepIndex = rfind (CHR ''/'') p;
          dotIndex = rfind (CHR ''.'') p
      in if dotIndex > sepIndex
            \<and> list_ex (\<lambda>i. p ! i \<noteq> CHR ''.'') [nat (sepIndex + 1)..<nat dotIndex]
         then take (nat dotIndex) p
         else p)"

subsection \<open>\<open>mzn2fzn\<close>\<close>

text \<open>
  Lines 150 to 160, the argument list. \<open>dzn_files\<close> is the tuple of the extra positional
  arguments: \<open>dzn_files or []\<close> is \<open>[]\<close> for the empty tuple and the tuple itself
  otherwise, and \<open>[mzn_file] + dzn_files\<close> raises \<open>TypeError\<close> on a tuple.
\<close>

definition mzn2fzn_args ::
  "('d, 'v) env \<Rightarrow> string \<Rightarrow> string list \<Rightarrow> 'd option \<Rightarrow> string option \<Rightarrow> exn + arg list" where
  "mzn2fzn_args env mzn_file dzn_files data mzn_globals_dir =
     (let args = (case mzn_globals_dir of
                    None \<Rightarrow> []
                  | Some g \<Rightarrow> if g \<noteq> [] then [ArgPair ''-G'' g] else [])
      in case (case data of
                 None \<Rightarrow> Inr args
               | Some d \<Rightarrow>
                   (case dzn env d of
                      Inl e \<Rightarrow> Inl e
                    | Inr frags \<Rightarrow>
                        Inr (args @ [ArgPair ''-D''
                               ([CHR 0x22] @ str_join '' '' frags @ [CHR 0x22])]))) of
           Inl e \<Rightarrow> Inl e
         | Inr args' \<Rightarrow>
             if dzn_files = [] then Inr (args' @ [ArgStr mzn_file]) else Inl TypeError)"

text \<open>Lines 170 to 180: a candidate path counts only if the file is there after the call.\<close>

definition probe :: "string \<Rightarrow> string \<Rightarrow> world \<Rightarrow> string option" where
  "probe base ext w =
     (let p = str_join ''.'' [base, ext] in if isfile p w then Some p else None)"

definition mzn2fzn ::
  "('d, 'v) env \<Rightarrow> string \<Rightarrow> string list \<Rightarrow> 'd option \<Rightarrow> string option \<Rightarrow> world
     \<Rightarrow> (exn + string option \<times> string option) \<times> world" where
  "mzn2fzn env mzn_file dzn_files data mzn_globals_dir w =
     (case mzn2fzn_args env mzn_file dzn_files data mzn_globals_dir of
        Inl e \<Rightarrow> (Inl e, w)
      | Inr args \<Rightarrow>
          (case call_run env (mzn2fzn_cmd env) args None w of
             (Inl stderr, w') \<Rightarrow> (Inl (RuntimeError stderr), w')
           | (Inr out, w') \<Rightarrow>
               (let base = splitext_root mzn_file
                in (Inr (probe base ''fzn'' w', probe base ''ozn'' w'), w'))))"

subsection \<open>\<open>solns2out\<close>\<close>

text \<open>\<open>args = [ozn_file]\<close>: the path as it was given, \<open>None\<close> included.\<close>

fun path_arg :: "string option \<Rightarrow> arg" where
  "path_arg None = ArgNone"
| "path_arg (Some p) = ArgStr p"

definition solns2out ::
  "('d, 'v) env \<Rightarrow> string \<Rightarrow> string option \<Rightarrow> world \<Rightarrow> (exn + string list) \<times> world" where
  "solns2out env solns_input ozn_file w =
     (case call_run env (solns2out_cmd env) [path_arg ozn_file] (Some solns_input) w of
        (Inl stderr, w') \<Rightarrow> (Inl (RuntimeError stderr), w')
      | (Inr out, w') \<Rightarrow> (solns2out_parse out, w'))"

subsection \<open>\<open>minizinc\<close>\<close>

datatype 'v solutions = Raw "string list" | Parsed "'v list"

text \<open>\<open>list(map(f, xs))\<close> for an \<open>f\<close> that may raise: the first exception ends it.\<close>

fun map_raise :: "('a \<Rightarrow> exn + 'b) \<Rightarrow> 'a list \<Rightarrow> exn + 'b list" where
  "map_raise f [] = Inr []"
| "map_raise f (x # xs) =
     (case f x of
        Inl e \<Rightarrow> Inl e
      | Inr y \<Rightarrow> (case map_raise f xs of Inl e \<Rightarrow> Inl e | Inr ys \<Rightarrow> Inr (y # ys)))"

text \<open>Lines 106 to 112, the body of the inner \<open>try\<close>.\<close>

definition solve_and_parse ::
  "('d, 'v) env \<Rightarrow> solver \<Rightarrow> bool \<Rightarrow> string option \<Rightarrow> string option \<Rightarrow> world
     \<Rightarrow> (exn + 'v solutions) \<times> world" where
  "solve_and_parse env fzn_fn raw_output fzn_file ozn_file w =
     (case call_fzn_fn fzn_fn fzn_file w of
        (Inl e, w1) \<Rightarrow> (Inl e, w1)
      | (Inr solns, w1) \<Rightarrow>
          (case solns2out env solns ozn_file w1 of
             (Inl e, w2) \<Rightarrow> (Inl e, w2)
           | (Inr out, w2) \<Rightarrow>
               (if raw_output then (Inr (Raw out), w2)
                else (case map_raise (parse_dzn env) out of
                        Inl e \<Rightarrow> (Inl e, w2)
                      | Inr vs \<Rightarrow> (Inr (Parsed vs), w2)))))"

text \<open>\<open>if path: os.remove(path)\<close>: \<open>None\<close> and the empty string are skipped.\<close>

fun remove_if_set :: "string option \<Rightarrow> world \<Rightarrow> (exn + unit) \<times> world" where
  "remove_if_set None w = (Inr (), w)"
| "remove_if_set (Some p) w = (if p \<noteq> [] then os_remove p w else (Inr (), w))"

text \<open>
  Lines 114 to 121, the inner \<open>finally\<close>. Both removals stand in one
  \<open>with contextlib.suppress(FileNotFoundError)\<close>: when the first raises, the block is
  left and the second is not tried. \<open>os_remove\<close> raises nothing else.
\<close>

definition remove_fzn_ozn :: "bool \<Rightarrow> string option \<Rightarrow> string option \<Rightarrow> world \<Rightarrow> world" where
  "remove_fzn_ozn keep fzn_file ozn_file w =
     (if keep then w
      else (case remove_if_set fzn_file w of
              (Inl e, w1) \<Rightarrow> w1
            | (Inr u, w1) \<Rightarrow> snd (remove_if_set ozn_file w1)))"

text \<open>Lines 123 to 127, the outer \<open>finally\<close>.\<close>

definition remove_mzn :: "bool \<Rightarrow> string \<Rightarrow> world \<Rightarrow> world" where
  "remove_mzn keep mzn_file w =
     (if keep then w else snd (remove_if_set (Some mzn_file) w))"

text \<open>
  Lines 91 to 127. An exception of the model adapter leaves before the outer \<open>try\<close>;
  one of \<open>mzn2fzn\<close> leaves through the outer \<open>finally\<close> alone; everything after it
  leaves through both, the inner first.
\<close>

definition minizinc ::
  "('d, 'v) env \<Rightarrow> solver \<Rightarrow> string list \<Rightarrow> 'd option \<Rightarrow> bool \<Rightarrow> bool \<Rightarrow> string option
     \<Rightarrow> world \<Rightarrow> (exn + 'v solutions) \<times> world" where
  "minizinc env fzn_fn dzn_files data keep raw_output mzn_globals_dir w =
     (case compile_model env (files w) of
        (Inl e, fs) \<Rightarrow> (Inl e, w\<lparr>files := fs\<rparr>)
      | (Inr mzn_file, fs) \<Rightarrow>
          (case mzn2fzn env mzn_file dzn_files data mzn_globals_dir (w\<lparr>files := fs\<rparr>) of
             (Inl e, w1) \<Rightarrow> (Inl e, remove_mzn keep mzn_file w1)
           | (Inr (fzn_file, ozn_file), w1) \<Rightarrow>
               (case solve_and_parse env fzn_fn raw_output fzn_file ozn_file w1 of
                  (r, w2) \<Rightarrow>
                    (r, remove_mzn keep mzn_file (remove_fzn_ozn keep fzn_file ozn_file w2)))))"

subsection \<open>\<open>solns2out\<close> with its logger calls\<close>

text \<open>
  The records handed to the module's logger: \<open>log.debug('Calling %s with arguments: %s',
  cmd, args)\<close>, \<open>log.exception(err.stderr)\<close> and \<open>log.debug('Solution found: %s', soln)\<close>.
\<close>

datatype log_record =
    Log_calling string "arg list"
  | Log_exception string
  | Log_solution_found string

text \<open>The loop of lines 220 to 237 once more, with the \<open>log.debug\<close> of line 224.\<close>

fun scan_logged ::
  "log_record list \<Rightarrow> string list \<Rightarrow> string list \<Rightarrow> string list
     \<Rightarrow> (exn + string list) \<times> log_record list" where
  "scan_logged lg solns curr_out [] = (Inr solns, lg)"
| "scan_logged lg solns curr_out (l # ls) =
     (let line = strip l
      in if line = soln_sep
         then (let soln = str_join [nl] curr_out
               in scan_logged (lg @ [Log_solution_found soln]) (solns @ [soln]) [] ls)
         else if line = search_complete_msg then (Inr solns, lg)
         else if line = unkn_msg then (Inl MiniZincUnknownError, lg)
         else if line = unsat_msg then (Inl MiniZincUnsatisfiableError, lg)
         else if line = unbnd_msg then (Inl MiniZincUnboundedError, lg)
         else scan_logged lg solns (curr_out @ [line]) ls)"

text \<open>
  Lines 196 to 237 with every effect: the \<open>log.debug\<close> of line 205, the run of the
  program named by \<open>config.solns2out_cmd\<close>, the \<open>log.exception\<close> of line 210, the scan.
\<close>

definition solns2out_logged ::
  "('d, 'v) env \<Rightarrow> string \<Rightarrow> string option \<Rightarrow> world \<Rightarrow> log_record list
     \<Rightarrow> (exn + string list) \<times> world \<times> log_record list" where
  "solns2out_logged env solns_input ozn_file w lg =
     (let args = [path_arg ozn_file];
          lg1 = lg @ [Log_calling (solns2out_cmd env) args]
      in case call_run env (solns2out_cmd env) args (Some solns_input) w of
           (Inl stderr, w') \<Rightarrow>
             (Inl (RuntimeError stderr), w', lg1 @ [Log_exception stderr])
         | (Inr out, w') \<Rightarrow>
             (case scan_logged lg1 [] [] (split_nl out) of
                (r, lg2) \<Rightarrow> (r, w', lg2)))"

subsection \<open>Sample collaborators, for running the model on concrete inputs\<close>

definition flatten_ok_run :: runner where
  "flatten_ok_run c args stdin fs =
     (if c = ''mzn2fzn'' then (Inr [], fs \<union> {''m.fzn'', ''m.ozn''})
      else (Inr ''x = 1;\<newline>----------\<newline>=========='', fs))"

definition flatten_fails_run :: runner where
  "flatten_fails_run c args stdin fs =
     (if c = ''mzn2fzn'' then (Inl ''m.mzn:1: syntax error'', fs)
      else (Inr ''x = 1;\<newline>----------\<newline>=========='', fs))"

definition flatten_no_output_run :: runner where
  "flatten_no_output_run c args stdin fs =
     (if c = ''mzn2fzn'' then (Inr [], fs)
      else (Inr ''----------\<newline>=========='', fs))"

definition sample_env :: "runner \<Rightarrow> (unit, string) env" where
  "sample_env r =
     \<lparr>mzn2fzn_cmd = ''mzn2fzn'', solns2out_cmd = ''solns2out'', run = r,
      compile_model = (\<lambda>fs. (Inr ''m.mzn'', insert ''m.mzn'' fs)),
      dzn = (\<lambda>d. Inr []), parse_dzn = Inr\<rparr>"

definition sample_solver :: solver where
  "sample_solver fzn_file fs = (Inr ''x = 1;'', fs)"

definition reconstruct_fails_run :: runner where
  "reconstruct_fails_run c args stdin fs =
     (if c = ''mzn2fzn'' then (Inr [], fs \<union> {''m.fzn'', ''m.ozn''})
      else (Inl ''solns2out: cannot open m.ozn'', fs))"

definition logging_solver :: solver where
  "logging_solver fzn_file fs = (Inr ''x = 1;'', insert ''solver.log'' fs)"

section \<open>The line scan\<close>

lemma strip_markers:
  "strip soln_sep = soln_sep" "strip search_complete_msg = search_complete_msg"
  "strip unkn_msg = unkn_msg" "strip unsat_msg = unsat_msg" "strip unbnd_msg = unbnd_msg"
  by (simp_all add: strip_def is_space_def soln_sep_def search_complete_msg_def unkn_msg_def
      unsat_msg_def unbnd_msg_def)

lemma markers_distinct:
  "soln_sep \<noteq> search_complete_msg" "soln_sep \<noteq> unkn_msg" "soln_sep \<noteq> unsat_msg"
  "soln_sep \<noteq> unbnd_msg" "search_complete_msg \<noteq> unkn_msg" "search_complete_msg \<noteq> unsat_msg"
  "search_complete_msg \<noteq> unbnd_msg" "unkn_msg \<noteq> unsat_msg" "unkn_msg \<noteq> unbnd_msg"
  "unsat_msg \<noteq> unbnd_msg"
  by (simp_all add: soln_sep_def search_complete_msg_def unkn_msg_def unsat_msg_def unbnd_msg_def)

lemma markers_no_nl:
  "nl \<notin> set soln_sep" "nl \<notin> set search_complete_msg" "nl \<notin> set unkn_msg"
  "nl \<notin> set unsat_msg" "nl \<notin> set unbnd_msg"
  by (simp_all add: soln_sep_def search_complete_msg_def unkn_msg_def unsat_msg_def unbnd_msg_def)

lemma split_nl_not_Nil: "split_nl s \<noteq> []"
  by (induction s) (auto split: list.splits)

lemma split_nl_line: "nl \<notin> set a \<Longrightarrow> split_nl a = [a]"
  by (induction a) (auto split: list.splits)

lemma split_nl_append: "nl \<notin> set a \<Longrightarrow> split_nl (a @ nl # b) = a # split_nl b"
  by (induction a) (auto split: list.splits)

lemma split_nl_no_nl: "l \<in> set (split_nl s) \<Longrightarrow> nl \<notin> set l"
  by (induction s arbitrary: l) (auto split: list.splits if_splits)

lemma scan_loop_sep:
  "strip s = soln_sep \<Longrightarrow>
     scan_loop solns cur (s # ls) = scan_loop (solns @ [str_join [nl] cur]) [] ls"
  by simp

lemma scan_loop_complete:
  "strip c = search_complete_msg \<Longrightarrow> scan_loop solns cur (c # ls) = Inr solns"
  by (simp add: markers_distinct[symmetric])

lemma scan_loop_unkn:
  "strip l = unkn_msg \<Longrightarrow> scan_loop solns cur (l # ls) = Inl MiniZincUnknownError"
  by (simp add: markers_distinct[symmetric])

lemma scan_loop_unsat:
  "strip l = unsat_msg \<Longrightarrow> scan_loop solns cur (l # ls) = Inl MiniZincUnsatisfiableError"
  by (simp add: markers_distinct[symmetric])

lemma scan_loop_unbnd:
  "strip l = unbnd_msg \<Longrightarrow> scan_loop solns cur (l # ls) = Inl MiniZincUnboundedError"
  by (simp add: markers_distinct[symmetric])

lemma scan_loop_content:
  "is_content l \<Longrightarrow> scan_loop solns cur (l # ls) = scan_loop solns (cur @ [strip l]) ls"
  by (simp add: is_content_def Let_def)

lemma scan_loop_contents:
  "list_all is_content b \<Longrightarrow>
     scan_loop solns cur (b @ ls) = scan_loop solns (cur @ map strip b) ls"
proof (induction b arbitrary: cur)
  case Nil
  then show ?case by simp
next
  case (Cons l b)
  then show ?case by (simp add: scan_loop_content del: scan_loop.simps(2))
qed

lemma scan_loop_blocks:
  "closed_blocks bs \<Longrightarrow>
     scan_loop solns [] (block_lines bs @ ls) = scan_loop (solns @ block_texts bs) [] ls"
proof (induction bs arbitrary: solns)
  case Nil
  then show ?case by (simp add: block_lines_def block_texts_def)
next
  case (Cons p bs)
  obtain b s where p: "p = (b, s)" by (cases p)
  from Cons.prems p have b: "list_all is_content b" and s: "strip s = soln_sep"
    and bs: "closed_blocks bs"
    by (simp_all add: closed_blocks_def)
  have "scan_loop solns [] (block_lines (p # bs) @ ls)
        = scan_loop solns [] (b @ s # block_lines bs @ ls)"
    by (simp add: p block_lines_def)
  also have "\<dots> = scan_loop solns (map strip b) (s # block_lines bs @ ls)"
    using scan_loop_contents[OF b, of solns "[]"] by simp
  also have "\<dots> = scan_loop (solns @ [str_join [nl] (map strip b)]) [] (block_lines bs @ ls)"
    by (rule scan_loop_sep[OF s])
  also have "\<dots> = scan_loop ((solns @ [str_join [nl] (map strip b)]) @ block_texts bs) [] ls"
    by (rule Cons.IH[OF bs])
  also have "\<dots> = scan_loop (solns @ block_texts (p # bs)) [] ls"
    by (simp add: p block_texts_def)
  finally show ?case .
qed

lemmas marker_defs = soln_sep_def search_complete_msg_def unkn_msg_def unsat_msg_def unbnd_msg_def
lemmas eval_defs = solns2out_parse_def strip_def is_space_def is_content_def marker_defs
  closed_blocks_def block_lines_def block_texts_def

text \<open>
  Claim C1. For every stream \<open>L1\<close>, \<open>L2\<close>, \<open>----------\<close>, \<open>L3\<close>, \<open>----------\<close>,
  \<open>==========\<close> (one per line, the three \<open>L\<close> being content lines, with nothing or a
  newline and anything after the last marker) the scan returns exactly two blocks: the
  trimmed \<open>L1\<close> and \<open>L2\<close> joined by a newline, and the trimmed \<open>L3\<close>.
\<close>
theorem solns2out_two_blocks:
  assumes "nl \<notin> set L1" and "nl \<notin> set L2" and "nl \<notin> set L3"
    and "is_content L1" and "is_content L2" and "is_content L3"
    and "rest = [] \<or> (\<exists>r. rest = nl # r)"
  shows "solns2out_parse
           (L1 @ [nl] @ L2 @ [nl] @ soln_sep @ [nl] @ L3 @ [nl] @ soln_sep @ [nl]
              @ search_complete_msg @ rest)
         = Inr [strip L1 @ [nl] @ strip L2, strip L3]"
proof -
  let ?text = "L1 @ [nl] @ L2 @ [nl] @ soln_sep @ [nl] @ L3 @ [nl] @ soln_sep @ [nl]
              @ search_complete_msg @ rest"
  have "\<exists>ls. split_nl (search_complete_msg @ rest) = search_complete_msg # ls"
    using assms(7) by (auto simp: split_nl_line split_nl_append markers_no_nl)
  then obtain ls where fin: "split_nl (search_complete_msg @ rest) = search_complete_msg # ls" ..
  have "split_nl ?text = [L1, L2, soln_sep, L3, soln_sep] @ search_complete_msg # ls"
    using assms(1-3) fin by (simp add: split_nl_append markers_no_nl)
  then have "solns2out_parse ?text
             = scan_loop [] [] (block_lines [([L1, L2], soln_sep), ([L3], soln_sep)]
                                  @ search_complete_msg # ls)"
    by (simp add: solns2out_parse_def block_lines_def)
  also have "\<dots> = scan_loop ([] @ block_texts [([L1, L2], soln_sep), ([L3], soln_sep)]) []
                      (search_complete_msg # ls)"
    by (rule scan_loop_blocks) (simp add: closed_blocks_def assms strip_markers)
  also have "\<dots> = Inr [strip L1 @ [nl] @ strip L2, strip L3]"
    by (simp add: scan_loop_complete strip_markers block_texts_def del: scan_loop.simps(2))
  finally show ?thesis .
qed

theorem solns2out_two_blocks_witness:
  "solns2out_parse
     ''x = 1;\<newline>  y = 2; \<newline>----------\<newline>x = 3;\<newline>----------\<newline>==========\<newline>''
   = Inr [''x = 1;\<newline>y = 2;'', ''x = 3;'']"
  using solns2out_two_blocks [of "''x = 1;''" "''  y = 2; ''" "''x = 3;''" "[nl]"]
  by (simp add: is_content_def strip_def is_space_def marker_defs)

lemma scan_loop_skip:
  "list_all (\<lambda>x. strip x \<notin> {search_complete_msg, unkn_msg, unsat_msg, unbnd_msg}) pre \<Longrightarrow>
     \<exists>solns' cur'. \<forall>ls. scan_loop solns cur (pre @ ls) = scan_loop solns' cur' ls"
proof (induction pre arbitrary: solns cur)
  case Nil
  then show ?case by auto
next
  case (Cons x pre)
  show ?case
  proof (cases "strip x = soln_sep")
    case True
    from Cons.IH[of "solns @ [str_join [nl] cur]" "[]"] Cons.prems
    obtain s' c' where "\<forall>ls. scan_loop (solns @ [str_join [nl] cur]) [] (pre @ ls) = scan_loop s' c' ls"
      by auto
    with True show ?thesis by (auto simp del: scan_loop.simps(2) simp add: scan_loop_sep)
  next
    case False
    with Cons.prems have c: "is_content x" by (simp add: is_content_def)
    from Cons.IH[of solns "cur @ [strip x]"] Cons.prems
    obtain s' c' where "\<forall>ls. scan_loop solns (cur @ [strip x]) (pre @ ls) = scan_loop s' c' ls"
      by auto
    with c show ?thesis by (auto simp del: scan_loop.simps(2) simp add: scan_loop_content)
  qed
qed

text \<open>
  Claim C2. When the scan reaches a line (no earlier line being \<open>==========\<close> or a fatal
  marker) whose trimmed text is \<open>=====UNSATISFIABLE=====\<close>, \<open>=====UNKNOWN=====\<close> or
  \<open>=====UNBOUNDED=====\<close>, it raises the matching error, the three errors being distinct;
  the lines after it play no part, and no solution list is returned. The stream that is
  only \<open>=====UNSATISFIABLE=====\<close> raises the unsatisfiable error.
\<close>
theorem fatal_marker_aborts_scan:
  assumes "split_nl out = pre @ l # post"
    and "list_all (\<lambda>x. strip x \<notin> {search_complete_msg, unkn_msg, unsat_msg, unbnd_msg}) pre"
  shows "(strip l = unsat_msg \<longrightarrow> solns2out_parse out = Inl MiniZincUnsatisfiableError)
       \<and> (strip l = unkn_msg \<longrightarrow> solns2out_parse out = Inl MiniZincUnknownError)
       \<and> (strip l = unbnd_msg \<longrightarrow> solns2out_parse out = Inl MiniZincUnboundedError)
       \<and> (strip l \<in> {unsat_msg, unkn_msg, unbnd_msg} \<longrightarrow>
            scan_loop [] [] (pre @ l # post) = scan_loop [] [] (pre @ [l]))
       \<and> distinct [MiniZincUnsatisfiableError, MiniZincUnknownError, MiniZincUnboundedError]
       \<and> solns2out_parse unsat_msg = Inl MiniZincUnsatisfiableError"
proof -
  from scan_loop_skip[OF assms(2), of "[]" "[]"]
  obtain s c where skip: "\<And>ls. scan_loop [] [] (pre @ ls) = scan_loop s c ls" by auto
  have p: "solns2out_parse out = scan_loop s c (l # post)"
    by (simp add: solns2out_parse_def assms(1) skip del: scan_loop.simps(2))
  have one: "solns2out_parse unsat_msg = Inl MiniZincUnsatisfiableError"
    by (simp add: solns2out_parse_def split_nl_line markers_no_nl scan_loop_unsat strip_markers
        del: scan_loop.simps(2))
  show ?thesis
    by (auto simp add: p one skip scan_loop_unsat scan_loop_unkn scan_loop_unbnd
        simp del: scan_loop.simps(2))
qed

theorem fatal_marker_aborts_scan_witness:
  "solns2out_parse ''x = 1;\<newline>----------\<newline> =====UNBOUNDED=====\<newline>x = 2;\<newline>----------\<newline>=========='' = Inl MiniZincUnboundedError
   \<and> solns2out_parse ''=====UNKNOWN=====\<newline>=====UNSATISFIABLE====='' = Inl MiniZincUnknownError
   \<and> solns2out_parse ''=====UNSATISFIABLE====='' = Inl MiniZincUnsatisfiableError"
  using fatal_marker_aborts_scan [of "''x = 1;\<newline>----------\<newline> =====UNBOUNDED=====\<newline>x = 2;\<newline>----------\<newline>==========''"
      "[''x = 1;'', ''----------'']" "'' =====UNBOUNDED=====''" "[''x = 2;'', ''----------'', ''=========='']"]
    fatal_marker_aborts_scan [of "''=====UNKNOWN=====\<newline>=====UNSATISFIABLE=====''"
      "[]" "''=====UNKNOWN=====''" "[''=====UNSATISFIABLE=====''] "]
  by (simp add: strip_def is_space_def marker_defs)

lemma lines_decompose:
  "\<exists>bs trailing fin. ls = block_lines bs @ trailing @ fin \<and> closed_blocks bs
      \<and> list_all is_content trailing
      \<and> (fin = [] \<or> (\<exists>c rest. fin = c # rest
            \<and> strip c \<in> {search_complete_msg, unkn_msg, unsat_msg, unbnd_msg}))"
proof (induction ls)
  case Nil
  have "[] = block_lines [] @ [] @ [] \<and> closed_blocks [] \<and> list_all is_content []"
    by (simp add: block_lines_def closed_blocks_def)
  then show ?case by blast
next
  case (Cons l ls)
  then obtain bs trailing fin where d: "ls = block_lines bs @ trailing @ fin"
    and cb: "closed_blocks bs" and tr: "list_all is_content trailing"
    and fin: "fin = [] \<or> (\<exists>c rest. fin = c # rest
            \<and> strip c \<in> {search_complete_msg, unkn_msg, unsat_msg, unbnd_msg})"
    by blast
  consider (sep) "strip l = soln_sep" | (content) "is_content l"
    | (terminal) "strip l \<in> {search_complete_msg, unkn_msg, unsat_msg, unbnd_msg}"
    by (auto simp: is_content_def Let_def)
  then show ?case
  proof cases
    case sep
    have "l # ls = block_lines (([], l) # bs) @ trailing @ fin \<and> closed_blocks (([], l) # bs)"
      using d cb sep by (simp add: block_lines_def closed_blocks_def)
    with tr fin show ?thesis by blast
  next
    case content
    show ?thesis
    proof (cases bs)
      case Nil
      have "l # ls = block_lines [] @ (l # trailing) @ fin \<and> closed_blocks []
            \<and> list_all is_content (l # trailing)"
        using d Nil tr content by (simp add: block_lines_def closed_blocks_def)
      with fin show ?thesis by blast
    next
      case (Cons p bs')
      obtain b s where p: "p = (b, s)" by (cases p)
      have "l # ls = block_lines ((l # b, s) # bs') @ trailing @ fin
            \<and> closed_blocks ((l # b, s) # bs')"
        using d cb Cons p content by (simp add: block_lines_def closed_blocks_def)
      with tr fin show ?thesis by blast
    qed
  next
    case terminal
    have "l # ls = block_lines [] @ [] @ (l # ls) \<and> closed_blocks [] \<and> list_all is_content []"
      by (simp add: block_lines_def closed_blocks_def)
    with terminal show ?thesis by blast
  qed
qed

text \<open>
  Claim C3. For every stream that ends without a fatal marker, either at a line
  \<open>==========\<close> or at the end of the text, the scan raises nothing and returns exactly the
  blocks closed by a separator, in order; the content lines after the last separator are
  dropped. The empty stream gives the empty list.
\<close>
theorem nonfatal_end_returns_closed_blocks:
  assumes "split_nl out = block_lines bs @ trailing @ fin"
    and "closed_blocks bs"
    and "list_all is_content trailing"
    and "fin = [] \<or> (\<exists>c rest. fin = c # rest \<and> strip c = search_complete_msg)"
  shows "solns2out_parse out = Inr (block_texts bs) \<and> solns2out_parse [] = Inr []"
proof -
  have "solns2out_parse out = scan_loop [] [] (block_lines bs @ trailing @ fin)"
    by (simp add: solns2out_parse_def assms(1))
  also have "\<dots> = scan_loop ([] @ block_texts bs) [] (trailing @ fin)"
    by (rule scan_loop_blocks[OF assms(2)])
  also have "\<dots> = scan_loop (block_texts bs) ([] @ map strip trailing) fin"
    using scan_loop_contents[OF assms(3), of "block_texts bs" "[]" fin] by simp
  also have "\<dots> = Inr (block_texts bs)"
    using assms(4) by (auto simp add: scan_loop_complete simp del: scan_loop.simps(2))
  finally have main: "solns2out_parse out = Inr (block_texts bs)" .
  have "solns2out_parse [] = scan_loop [] [] [[]]"
    by (simp add: solns2out_parse_def)
  also have "\<dots> = Inr []"
    by (simp add: strip_def marker_defs)
  finally show ?thesis using main by simp
qed

theorem nonfatal_end_returns_closed_blocks_witness:
  "solns2out_parse ''a\<newline>b\<newline>----------\<newline>c\<newline>----------\<newline>d\<newline> ==========\<newline>e\<newline>----------''
     = Inr [''a\<newline>b'', ''c'']
   \<and> solns2out_parse ''a\<newline>----------\<newline>b\<newline>c'' = Inr [''a'']"
  using nonfatal_end_returns_closed_blocks
      [of "''a\<newline>b\<newline>----------\<newline>c\<newline>----------\<newline>d\<newline> ==========\<newline>e\<newline>----------''"
          "[([''a'', ''b''], ''----------''), ([''c''], ''----------'')]" "[''d'']"
          "['' =========='', ''e'', ''----------'']"]
    nonfatal_end_returns_closed_blocks
      [of "''a\<newline>----------\<newline>b\<newline>c''" "[([''a''], ''----------'')]" "[''b'', ''c'']" "[]"]
  by (simp add: closed_blocks_def block_lines_def block_texts_def is_content_def strip_def
      is_space_def marker_defs)

text \<open>
  Claim C6, as amended. For every stream of separator-closed blocks, then content lines,
  then a fatal marker, the scan stops at the marker and the result is the matching error
  alone, whatever the blocks were: the blocks closed before the marker are not returned.
\<close>
theorem fatal_marker_drops_closed_blocks:
  assumes "split_nl out = block_lines bs @ trailing @ f # post"
    and "closed_blocks bs"
    and "list_all is_content trailing"
  shows "(strip f = unkn_msg \<longrightarrow> solns2out_parse out = Inl MiniZincUnknownError)
       \<and> (strip f = unsat_msg \<longrightarrow> solns2out_parse out = Inl MiniZincUnsatisfiableError)
       \<and> (strip f = unbnd_msg \<longrightarrow> solns2out_parse out = Inl MiniZincUnboundedError)"
proof -
  have "solns2out_parse out = scan_loop [] [] (block_lines bs @ trailing @ f # post)"
    by (simp add: solns2out_parse_def assms(1))
  also have "\<dots> = scan_loop ([] @ block_texts bs) [] (trailing @ f # post)"
    by (rule scan_loop_blocks[OF assms(2)])
  also have "\<dots> = scan_loop (block_texts bs) ([] @ map strip trailing) (f # post)"
    using scan_loop_contents[OF assms(3), of "block_texts bs" "[]" "f # post"] by simp
  finally have "solns2out_parse out = scan_loop (block_texts bs) ([] @ map strip trailing) (f # post)" .
  then show ?thesis
    by (simp add: scan_loop_unkn scan_loop_unsat scan_loop_unbnd del: scan_loop.simps(2))
qed

theorem fatal_marker_drops_closed_blocks_witness:
  "solns2out_parse ''a\<newline>----------\<newline>b\<newline>=====UNSATISFIABLE=====\<newline>c'' = Inl MiniZincUnsatisfiableError"
  using fatal_marker_drops_closed_blocks
      [of "''a\<newline>----------\<newline>b\<newline>=====UNSATISFIABLE=====\<newline>c''"
          "[([''a''], ''----------'')]" "[''b'']" "''=====UNSATISFIABLE=====''" "[''c'']"]
  by (simp add: closed_blocks_def block_lines_def is_content_def strip_def
      is_space_def marker_defs)

text \<open>
  Claim C6 as stated says the solutions completed before a fatal marker are preserved.
  The stream \<open>a\<close>, \<open>----------\<close> returns the block \<open>a\<close>; followed by
  \<open>=====UNKNOWN=====\<close> the result is the error, which carries no block.
\<close>
theorem closed_block_not_preserved_counterexample:
  "solns2out_parse ''a\<newline>----------'' = Inr [''a'']
   \<and> solns2out_parse ''a\<newline>----------\<newline>=====UNKNOWN====='' = Inl MiniZincUnknownError"
  by (simp add: solns2out_parse_def strip_def is_space_def marker_defs)

text \<open>
  Claim C9. A separator line met with nothing accumulated since the previous separator
  (or the start) appends the empty string as a block; \<open>n\<close> separator lines in a row give
  \<open>n\<close> empty blocks; a blank line inside a block is kept as an empty line of that block.
\<close>
theorem empty_blocks_and_blank_lines:
  "(strip s = soln_sep \<longrightarrow>
      scan_loop solns [] (s # ls) = scan_loop (solns @ [[]]) [] ls)
   \<and> solns2out_parse (str_join [nl] (replicate n soln_sep)) = Inr (replicate n [])
   \<and> (strip l = [] \<longrightarrow>
        scan_loop solns cur (l # ls) = scan_loop solns (cur @ [[]]) ls)
   \<and> (is_content a \<and> strip l = [] \<and> is_content c \<and> strip s = soln_sep \<longrightarrow>
        scan_loop [] [] [a, l, c, s] = Inr [strip a @ [nl] @ [nl] @ strip c])"
proof -
  have blank: "is_content l" if "strip l = []" for l
    using that by (simp add: is_content_def marker_defs)
  have A: "strip s = soln_sep \<longrightarrow>
      scan_loop solns [] (s # ls) = scan_loop (solns @ [[]]) [] ls"
    by (simp add: scan_loop_sep del: scan_loop.simps(2))
  have seps: "scan_loop solns [] (replicate n soln_sep @ ls) = scan_loop (solns @ replicate n []) [] ls"
    for solns ls
  proof (induction n arbitrary: solns)
    case 0
    then show ?case by simp
  next
    case (Suc n)
    have "scan_loop solns [] (replicate (Suc n) soln_sep @ ls)
          = scan_loop (solns @ [[]]) [] (replicate n soln_sep @ ls)"
      by (simp add: scan_loop_sep strip_markers del: scan_loop.simps(2))
    also have "\<dots> = scan_loop ((solns @ [[]]) @ replicate n []) [] ls"
      by (rule Suc.IH)
    finally show ?case by (simp add: replicate_app_Cons_same)
  qed
  have split_seps: "split_nl (str_join [nl] (replicate (Suc n) soln_sep)) = replicate (Suc n) soln_sep" for n
  proof (induction n)
    case 0
    then show ?case by (simp add: split_nl_line markers_no_nl)
  next
    case (Suc n)
    have "str_join [nl] (replicate (Suc (Suc n)) soln_sep)
          = soln_sep @ nl # str_join [nl] (replicate (Suc n) soln_sep)"
      by simp
    then show ?case using Suc by (simp add: split_nl_append markers_no_nl del: str_join.simps)
  qed
  have B: "solns2out_parse (str_join [nl] (replicate n soln_sep)) = Inr (replicate n [])"
  proof (cases n)
    case 0
    then show ?thesis by (simp add: solns2out_parse_def strip_def marker_defs)
  next
    case (Suc m)
    have "solns2out_parse (str_join [nl] (replicate n soln_sep))
          = scan_loop [] [] (replicate n soln_sep @ [])"
      unfolding solns2out_parse_def Suc split_seps by simp
    also have "\<dots> = Inr (replicate n [])"
      unfolding seps by simp
    finally show ?thesis .
  qed
  have C: "strip l = [] \<longrightarrow>
        scan_loop solns cur (l # ls) = scan_loop solns (cur @ [[]]) ls"
    using blank[of l] scan_loop_content[of l solns cur ls] by auto
  have D: "is_content a \<and> strip l = [] \<and> is_content c \<and> strip s = soln_sep \<longrightarrow>
        scan_loop [] [] [a, l, c, s] = Inr [strip a @ [nl] @ [nl] @ strip c]"
  proof
    assume h: "is_content a \<and> strip l = [] \<and> is_content c \<and> strip s = soln_sep"
    then have "list_all is_content [a, l, c]" using blank[of l] by simp
    from scan_loop_contents[OF this, of "[]" "[]" "[s]"] h
    show "scan_loop [] [] [a, l, c, s] = Inr [strip a @ [nl] @ [nl] @ strip c]"
      by (simp add: scan_loop_sep del: scan_loop.simps(2))
  qed
  from A B C D show ?thesis by blast
qed

theorem empty_blocks_and_blank_lines_witness:
  "solns2out_parse ''----------\<newline>----------\<newline>----------'' = Inr ['''', '''', '''']
   \<and> scan_loop [] [] [''a'', ''  '', ''c'', ''----------''] = Inr [''a\<newline>\<newline>c'']
   \<and> scan_loop [''x''] [] ['' ---------- '', ''==========''] = Inr [''x'', '''']"
  using empty_blocks_and_blank_lines [of "''----------''" "[]" "[]" 3 "''  ''" "[]" "''a''" "''c''"]
    empty_blocks_and_blank_lines [of "'' ---------- ''" "[''x'']" "[''=========='']" 0 "''  ''" "[]" "''a''" "''c''"]
  by (simp add: is_content_def strip_def is_space_def marker_defs numeral_3_eq_3)

section \<open>The pipeline\<close>

lemmas pipeline_defs = minizinc_def mzn2fzn_def mzn2fzn_args_def call_run_def call_fzn_fn_def
  solve_and_parse_def solns2out_def remove_mzn_def remove_fzn_ozn_def os_remove_def probe_def
  isfile_def splitext_root_def rfind_def
lemmas sample_defs = sample_env_def sample_solver_def flatten_ok_run_def flatten_fails_run_def
  flatten_no_output_run_def

lemma scan_loop_raises:
  "scan_loop solns cur ls = Inl e \<Longrightarrow>
     e \<in> {MiniZincUnsatisfiableError, MiniZincUnknownError, MiniZincUnboundedError}"
  by (induction solns cur ls rule: scan_loop.induct) (auto simp: Let_def split: if_splits)

lemma mzn2fzn_tool_fails:
  assumes "mzn2fzn_args env mzn_file dzn_files data gdir = Inr args"
    and "run env (mzn2fzn_cmd env) args None (files w) = (Inl stderr, fs)"
  shows "mzn2fzn env mzn_file dzn_files data gdir w
         = (Inl (RuntimeError stderr),
            \<lparr>files = fs, calls = calls w @ [Ev_run (mzn2fzn_cmd env) args None]\<rparr>)"
  using assms by (simp add: mzn2fzn_def call_run_def)

lemma mzn2fzn_tool_succeeds:
  assumes "mzn2fzn_args env mzn_file dzn_files data gdir = Inr args"
    and "run env (mzn2fzn_cmd env) args None (files w) = (Inr out, fs)"
  shows "mzn2fzn env mzn_file dzn_files data gdir w
         = (Inr (if str_join ''.'' [splitext_root mzn_file, ''fzn''] \<in> fs
                 then Some (str_join ''.'' [splitext_root mzn_file, ''fzn'']) else None,
                 if str_join ''.'' [splitext_root mzn_file, ''ozn''] \<in> fs
                 then Some (str_join ''.'' [splitext_root mzn_file, ''ozn'']) else None),
            \<lparr>files = fs, calls = calls w @ [Ev_run (mzn2fzn_cmd env) args None]\<rparr>)"
  using assms by (simp add: mzn2fzn_def call_run_def probe_def isfile_def Let_def)

lemma files_remove_mzn:
  "files (remove_mzn keep mzn_file w)
   = (if keep \<or> mzn_file = [] then files w else files w - {mzn_file})"
  by (auto simp: remove_mzn_def os_remove_def)

lemma calls_remove_mzn: "calls (remove_mzn keep mzn_file w) = calls w"
  by (simp add: remove_mzn_def os_remove_def)

lemma calls_remove_fzn_ozn: "calls (remove_fzn_ozn keep fzn_file ozn_file w) = calls w"
  by (cases fzn_file; cases ozn_file) (simp_all add: remove_fzn_ozn_def os_remove_def)

text \<open>
  Claim C5. Whenever the \<open>mzn2fzn\<close> program exits non-zero, \<open>minizinc\<close> raises
  \<open>RuntimeError\<close> with the captured \<open>stderr\<close> text as its message, the only external call
  made is that one (neither the solver function nor \<open>solns2out\<close> is called), and the model
  file is removed unless \<open>keep\<close> holds.
\<close>
theorem stage1_failure_stops_pipeline:
  assumes "compile_model env (files w) = (Inr mzn_file, fs1)"
    and "mzn2fzn_args env mzn_file dzn_files data gdir = Inr args"
    and "run env (mzn2fzn_cmd env) args None fs1 = (Inl stderr, fs2)"
  shows "fst (minizinc env fzn_fn dzn_files data keep raw_output gdir w)
           = Inl (RuntimeError stderr)
       \<and> runtime_message (RuntimeError stderr) = Some stderr
       \<and> calls (snd (minizinc env fzn_fn dzn_files data keep raw_output gdir w))
           = calls w @ [Ev_run (mzn2fzn_cmd env) args None]
       \<and> files (snd (minizinc env fzn_fn dzn_files data keep raw_output gdir w))
           = (if keep \<or> mzn_file = [] then fs2 else fs2 - {mzn_file})"
proof -
  have "mzn2fzn env mzn_file dzn_files data gdir (w\<lparr>files := fs1\<rparr>)
        = (Inl (RuntimeError stderr),
           \<lparr>files = fs2, calls = calls w @ [Ev_run (mzn2fzn_cmd env) args None]\<rparr>)"
    using mzn2fzn_tool_fails[OF assms(2), of "w\<lparr>files := fs1\<rparr>" stderr fs2] assms(3) by simp
  then have "minizinc env fzn_fn dzn_files data keep raw_output gdir w
        = (Inl (RuntimeError stderr),
           remove_mzn keep mzn_file
             \<lparr>files = fs2, calls = calls w @ [Ev_run (mzn2fzn_cmd env) args None]\<rparr>)"
    using assms(1) by (simp add: minizinc_def)
  then show ?thesis
    by (simp add: files_remove_mzn calls_remove_mzn)
qed

theorem stage1_failure_stops_pipeline_witness:
  "minizinc (sample_env flatten_fails_run) sample_solver [] None False True (Some ''gecode'')
     \<lparr>files = {''old.txt''}, calls = []\<rparr>
   = (Inl (RuntimeError ''m.mzn:1: syntax error''),
      \<lparr>files = {''old.txt''},
       calls = [Ev_run ''mzn2fzn'' [ArgPair ''-G'' ''gecode'', ArgStr ''m.mzn''] None]\<rparr>)"
  using stage1_failure_stops_pipeline
      [of "sample_env flatten_fails_run" "\<lparr>files = {''old.txt''}, calls = []\<rparr>" "''m.mzn''"
          "{''m.mzn'', ''old.txt''}" "[]" None "Some ''gecode''"
          "[ArgPair ''-G'' ''gecode'', ArgStr ''m.mzn'']" "''m.mzn:1: syntax error''"
          "{''m.mzn'', ''old.txt''}" sample_solver False True]
  by (simp add: sample_defs mzn2fzn_args_def prod_eq_iff world.equality)

text \<open>
  Claim C7 as stated says the parser performs no I/O, depends on nothing in its
  environment and gives the same output for the same input. \<open>solns2out\<close>, which holds the
  scan, starts the program named by \<open>config.solns2out_cmd\<close> and calls the logger; on
  the same solver text and the same path it returns a solution list with one runner and
  raises with another. The scan itself hands one record to the logger for each block.
\<close>
theorem solns2out_not_pure_counterexample:
  "solns2out_logged (sample_env flatten_ok_run) ''raw'' (Some ''m.ozn'')
       \<lparr>files = {''m.ozn''}, calls = []\<rparr> []
     = (Inr [''x = 1;''],
        \<lparr>files = {''m.ozn''}, calls = [Ev_run ''solns2out'' [ArgStr ''m.ozn''] (Some ''raw'')]\<rparr>,
        [Log_calling ''solns2out'' [ArgStr ''m.ozn''], Log_solution_found ''x = 1;''])
   \<and> solns2out_logged (sample_env reconstruct_fails_run) ''raw'' (Some ''m.ozn'')
       \<lparr>files = {''m.ozn''}, calls = []\<rparr> []
     = (Inl (RuntimeError ''solns2out: cannot open m.ozn''),
        \<lparr>files = {''m.ozn''}, calls = [Ev_run ''solns2out'' [ArgStr ''m.ozn''] (Some ''raw'')]\<rparr>,
        [Log_calling ''solns2out'' [ArgStr ''m.ozn''],
         Log_exception ''solns2out: cannot open m.ozn''])
   \<and> scan_logged [] [] [] [''a'', ''----------''] = (Inr [''a''], [Log_solution_found ''a''])"
  by (simp add: solns2out_logged_def call_run_def sample_env_def flatten_ok_run_def
      reconstruct_fails_run_def strip_def is_space_def marker_defs Let_def)

lemma scan_logged_value: "fst (scan_logged lg solns cur ls) = scan_loop solns cur ls"
  by (induction lg solns cur ls rule: scan_logged.induct) (simp_all add: Let_def)

lemma scan_logged_value_eq:
  "scan_logged lg solns cur ls = (r, lg') \<Longrightarrow> r = scan_loop solns cur ls"
  using scan_logged_value[of lg solns cur ls] by simp

lemma scan_logged_content:
  "is_content l \<Longrightarrow>
     scan_logged lg solns cur (l # ls) = scan_logged lg solns (cur @ [strip l]) ls"
  by (simp add: is_content_def Let_def)

lemma scan_logged_contents:
  "list_all is_content b \<Longrightarrow>
     scan_logged lg solns cur (b @ ls) = scan_logged lg solns (cur @ map strip b) ls"
proof (induction b arbitrary: cur)
  case Nil
  then show ?case by simp
next
  case (Cons l b)
  then show ?case by (simp add: scan_logged_content del: scan_logged.simps(2))
qed

lemma scan_logged_sep:
  "strip s = soln_sep \<Longrightarrow>
     scan_logged lg solns cur (s # ls)
     = scan_logged (lg @ [Log_solution_found (str_join [nl] cur)])
         (solns @ [str_join [nl] cur]) [] ls"
  by (simp add: Let_def)

lemma scan_logged_blocks:
  "closed_blocks bs \<Longrightarrow>
     scan_logged lg solns [] (block_lines bs @ ls)
     = scan_logged (lg @ map Log_solution_found (block_texts bs)) (solns @ block_texts bs) [] ls"
proof (induction bs arbitrary: lg solns)
  case Nil
  then show ?case by (simp add: block_lines_def block_texts_def)
next
  case (Cons p bs)
  obtain b s where p: "p = (b, s)" by (cases p)
  from Cons.prems p have b: "list_all is_content b" and s: "strip s = soln_sep"
    and bs: "closed_blocks bs"
    by (simp_all add: closed_blocks_def)
  let ?t = "str_join [nl] (map strip b)"
  have "scan_logged lg solns [] (block_lines (p # bs) @ ls)
        = scan_logged lg solns [] (b @ s # block_lines bs @ ls)"
    by (simp add: p block_lines_def)
  also have "\<dots> = scan_logged lg solns (map strip b) (s # block_lines bs @ ls)"
    using scan_logged_contents[OF b, of lg solns "[]"] by simp
  also have "\<dots> = scan_logged (lg @ [Log_solution_found ?t]) (solns @ [?t]) []
                      (block_lines bs @ ls)"
    by (rule scan_logged_sep[OF s])
  also have "\<dots> = scan_logged ((lg @ [Log_solution_found ?t])
                                  @ map Log_solution_found (block_texts bs))
                                ((solns @ [?t]) @ block_texts bs) [] ls"
    by (rule Cons.IH[OF bs])
  also have "\<dots> = scan_logged (lg @ map Log_solution_found (block_texts (p # bs)))
                                (solns @ block_texts (p # bs)) [] ls"
    by (simp add: p block_texts_def)
  finally show ?case .
qed

lemma scan_logged_stop:
  "fin = [] \<or> (\<exists>c rest. fin = c # rest
        \<and> strip c \<in> {search_complete_msg, unkn_msg, unsat_msg, unbnd_msg}) \<Longrightarrow>
     snd (scan_logged lg solns cur fin) = lg"
  by (auto simp: Let_def markers_distinct markers_distinct[symmetric])

lemma scan_logged_log:
  assumes "ls = block_lines bs @ trailing @ fin"
    and "closed_blocks bs"
    and "list_all is_content trailing"
    and "fin = [] \<or> (\<exists>c rest. fin = c # rest
            \<and> strip c \<in> {search_complete_msg, unkn_msg, unsat_msg, unbnd_msg})"
  shows "scan_logged lg [] [] ls
         = (scan_loop [] [] ls, lg @ map Log_solution_found (block_texts bs))"
proof -
  have "scan_logged lg [] [] ls
        = scan_logged (lg @ map Log_solution_found (block_texts bs)) ([] @ block_texts bs) []
            (trailing @ fin)"
    unfolding assms(1) by (rule scan_logged_blocks[OF assms(2)])
  also have "\<dots> = scan_logged (lg @ map Log_solution_found (block_texts bs))
                       ([] @ block_texts bs) ([] @ map strip trailing) fin"
    by (rule scan_logged_contents[OF assms(3)])
  finally have "snd (scan_logged lg [] [] ls) = lg @ map Log_solution_found (block_texts bs)"
    using scan_logged_stop[OF assms(4)] by simp
  then show ?thesis
    using scan_logged_value[of lg "[]" "[]" ls] by (simp add: prod_eq_iff)
qed

lemma solns2out_logged_erase:
  "(case solns2out_logged env solns_input ozn_file w lg of (r, w', lg') \<Rightarrow> (r, w'))
   = solns2out env solns_input ozn_file w"
proof -
  obtain r w' where c: "call_run env (solns2out_cmd env) [path_arg ozn_file] (Some solns_input) w
                         = (r, w')"
    by (cases "call_run env (solns2out_cmd env) [path_arg ozn_file] (Some solns_input) w")
  show ?thesis
  proof (cases r)
    case (Inl stderr)
    with c show ?thesis by (simp add: solns2out_logged_def solns2out_def)
  next
    case (Inr out)
    with c show ?thesis
      by (auto simp add: solns2out_logged_def solns2out_def solns2out_parse_def Let_def
          split: prod.splits dest: scan_logged_value_eq)
  qed
qed

text \<open>
  Claim C7, as amended. The value of the scan is a function of the text alone: on every
  text (closed blocks, then content lines, then nothing or a terminal marker and anything)
  and with any records already logged, the scan with its logger call returns
  \<open>solns2out_parse\<close> of the text, and its only effect is one \<open>Solution found\<close> record per
  closed block. \<open>solns2out\<close> around it is not pure: it logs the call, runs the configured
  program once on \<open>[ozn_file]\<close> with the solver text as input, and then either wraps the
  program's \<open>stderr\<close> or scans the program's output; without the log it is the
  \<open>solns2out\<close> of the sections above.
\<close>
theorem scan_result_from_text_alone:
  assumes "split_nl out = block_lines bs @ trailing @ fin"
    and "closed_blocks bs"
    and "list_all is_content trailing"
    and "fin = [] \<or> (\<exists>c rest. fin = c # rest
            \<and> strip c \<in> {search_complete_msg, unkn_msg, unsat_msg, unbnd_msg})"
  shows "scan_logged lg [] [] (split_nl out)
           = (solns2out_parse out, lg @ map Log_solution_found (block_texts bs))
       \<and> (run env (solns2out_cmd env) [path_arg ozn_file] (Some solns_input) (files w)
             = (Inr out, fs) \<longrightarrow>
           solns2out_logged env solns_input ozn_file w lg
             = (solns2out_parse out,
                \<lparr>files = fs,
                 calls = calls w
                   @ [Ev_run (solns2out_cmd env) [path_arg ozn_file] (Some solns_input)]\<rparr>,
                lg @ [Log_calling (solns2out_cmd env) [path_arg ozn_file]]
                   @ map Log_solution_found (block_texts bs)))
       \<and> (run env (solns2out_cmd env) [path_arg ozn_file] (Some solns_input) (files w)
             = (Inl stderr, fs) \<longrightarrow>
           solns2out_logged env solns_input ozn_file w lg
             = (Inl (RuntimeError stderr),
                \<lparr>files = fs,
                 calls = calls w
                   @ [Ev_run (solns2out_cmd env) [path_arg ozn_file] (Some solns_input)]\<rparr>,
                lg @ [Log_calling (solns2out_cmd env) [path_arg ozn_file],
                      Log_exception stderr]))
       \<and> (case solns2out_logged env solns_input ozn_file w lg of (r, w', lg') \<Rightarrow> (r, w'))
           = solns2out env solns_input ozn_file w"
proof -
  have scan: "scan_logged lg' [] [] (split_nl out)
           = (solns2out_parse out, lg' @ map Log_solution_found (block_texts bs))" for lg'
    unfolding solns2out_parse_def by (rule scan_logged_log[OF assms])
  show ?thesis
    by (simp add: scan solns2out_logged_erase)
       (simp add: solns2out_logged_def call_run_def scan Let_def)
qed

theorem scan_result_from_text_alone_witness:
  "solns2out_logged (sample_env flatten_ok_run) ''raw'' (Some ''m.ozn'')
       \<lparr>files = {''m.ozn''}, calls = []\<rparr> [Log_exception ''earlier'']
     = (Inr [''x = 1;''],
        \<lparr>files = {''m.ozn''}, calls = [Ev_run ''solns2out'' [ArgStr ''m.ozn''] (Some ''raw'')]\<rparr>,
        [Log_exception ''earlier'', Log_calling ''solns2out'' [ArgStr ''m.ozn''],
         Log_solution_found ''x = 1;''])
   \<and> scan_logged [] [] [] (split_nl ''x = 1;\<newline>----------\<newline>=========='')
     = (Inr [''x = 1;''], [Log_solution_found ''x = 1;''])"
  using scan_result_from_text_alone
      [where out = "''x = 1;\<newline>----------\<newline>==========''"
         and bs = "[([''x = 1;''], ''----------'')]" and trailing = "[]"
         and fin = "[''=========='']" and lg = "[Log_exception ''earlier'']"
         and env = "sample_env flatten_ok_run" and ozn_file = "Some ''m.ozn''"
         and solns_input = "''raw''" and w = "\<lparr>files = {''m.ozn''}, calls = []\<rparr>"
         and fs = "{''m.ozn''}" and stderr = "[]"]
    scan_result_from_text_alone
      [where out = "''x = 1;\<newline>----------\<newline>==========''"
         and bs = "[([''x = 1;''], ''----------'')]" and trailing = "[]"
         and fin = "[''=========='']" and lg = "[]"
         and env = "sample_env flatten_ok_run" and ozn_file = "Some ''m.ozn''"
         and solns_input = "''raw''" and w = "\<lparr>files = {''m.ozn''}, calls = []\<rparr>"
         and fs = "{''m.ozn''}" and stderr = "[]"]
  by (simp add: sample_defs eval_defs)

text \<open>
  Claim C8 as stated says the solver call and the \<open>solns2out\<close> call check that the path
  is there before they use it. In a run where \<open>mzn2fzn\<close> leaves neither file, the solver
  function is called with \<open>None\<close> and the \<open>solns2out\<close> program is run with the argument
  list \<open>[None]\<close>.
\<close>
theorem presence_not_checked_counterexample:
  "calls (snd (minizinc (sample_env flatten_no_output_run) sample_solver [] None False True
                 (Some ''gecode'') \<lparr>files = {}, calls = []\<rparr>))
   = [Ev_run ''mzn2fzn'' [ArgPair ''-G'' ''gecode'', ArgStr ''m.mzn''] None,
      Ev_fzn_fn None,
      Ev_run ''solns2out'' [ArgNone] (Some ''x = 1;'')]"
  by (simp add: pipeline_defs sample_defs eval_defs)

lemma calls_solns2out:
  "calls (snd (solns2out env solns_input ozn_file w))
   = calls w @ [Ev_run (solns2out_cmd env) [path_arg ozn_file] (Some solns_input)]"
  by (simp add: solns2out_def call_run_def split: prod.splits sum.splits)

lemma calls_solve_and_parse_all:
  "calls (snd (solve_and_parse env fzn_fn raw_output fzn_file ozn_file w))
   = calls w @ [Ev_fzn_fn fzn_file]
       @ (case fst (fzn_fn fzn_file (files w)) of
            Inl e \<Rightarrow> []
          | Inr solns \<Rightarrow> [Ev_run (solns2out_cmd env) [path_arg ozn_file] (Some solns)])"
proof (cases "fzn_fn fzn_file (files w)")
  case (Pair r fs)
  show ?thesis
  proof (cases r)
    case (Inl e)
    with Pair show ?thesis by (simp add: solve_and_parse_def call_fzn_fn_def)
  next
    case (Inr solns)
    let ?w1 = "\<lparr>files = fs, calls = calls w @ [Ev_fzn_fn fzn_file]\<rparr>"
    have "calls (snd (solve_and_parse env fzn_fn raw_output fzn_file ozn_file w))
          = calls (snd (solns2out env solns ozn_file ?w1))"
      using Pair Inr by (simp add: solve_and_parse_def call_fzn_fn_def split: prod.splits sum.splits)
    then show ?thesis using Pair Inr by (simp add: calls_solns2out)
  qed
qed

lemma minizinc_after_mzn2fzn:
  assumes "compile_model env (files w) = (Inr mzn_file, fs1)"
    and "mzn2fzn env mzn_file dzn_files data gdir (w\<lparr>files := fs1\<rparr>)
           = (Inr (fzn_file, ozn_file), w1)"
  shows "minizinc env fzn_fn dzn_files data keep raw_output gdir w
         = (fst (solve_and_parse env fzn_fn raw_output fzn_file ozn_file w1),
            remove_mzn keep mzn_file
              (remove_fzn_ozn keep fzn_file ozn_file
                 (snd (solve_and_parse env fzn_fn raw_output fzn_file ozn_file w1))))"
  using assms by (simp add: minizinc_def split: prod.splits)

lemma minizinc_mzn2fzn_raises:
  assumes "compile_model env (files w) = (Inr mzn_file, fs1)"
    and "mzn2fzn env mzn_file dzn_files data gdir (w\<lparr>files := fs1\<rparr>) = (Inl e, w1)"
  shows "minizinc env fzn_fn dzn_files data keep raw_output gdir w
         = (Inl e, remove_mzn keep mzn_file w1)"
  using assms by (simp add: minizinc_def)

text \<open>
  Claim C8, as amended. When the \<open>mzn2fzn\<close> program succeeds, \<open>mzn2fzn\<close> raises nothing
  and returns \<open>None\<close> for each of the two files that is not there. \<open>minizinc\<close> hands the
  optional paths on as they are, \<open>None\<close> included, with no test: its calls are the
  \<open>mzn2fzn\<close> run, then the solver function on \<open>fzn_file\<close>, then (if the solver returned)
  the \<open>solns2out\<close> program on \<open>[ozn_file]\<close>. Only the cleanup looks at the presence of a
  path: with both \<open>None\<close> it removes nothing but the model file.
\<close>
theorem minizinc_hands_optional_paths_on:
  assumes "compile_model env (files w) = (Inr mzn_file, fs1)"
    and "mzn2fzn_args env mzn_file dzn_files data gdir = Inr args"
    and "run env (mzn2fzn_cmd env) args None fs1 = (Inr out, fs2)"
    and "fzn_file = (if str_join ''.'' [splitext_root mzn_file, ''fzn''] \<in> fs2
                     then Some (str_join ''.'' [splitext_root mzn_file, ''fzn'']) else None)"
    and "ozn_file = (if str_join ''.'' [splitext_root mzn_file, ''ozn''] \<in> fs2
                     then Some (str_join ''.'' [splitext_root mzn_file, ''ozn'']) else None)"
  shows "fst (mzn2fzn env mzn_file dzn_files data gdir (w\<lparr>files := fs1\<rparr>))
           = Inr (fzn_file, ozn_file)
       \<and> calls (snd (minizinc env fzn_fn dzn_files data keep raw_output gdir w))
           = calls w @ [Ev_run (mzn2fzn_cmd env) args None, Ev_fzn_fn fzn_file]
               @ (case fst (fzn_fn fzn_file fs2) of
                    Inl e \<Rightarrow> []
                  | Inr solns \<Rightarrow>
                      [Ev_run (solns2out_cmd env) [path_arg ozn_file] (Some solns)])
       \<and> (fzn_file = None \<and> ozn_file = None \<longrightarrow>
            files (snd (minizinc env fzn_fn dzn_files data keep raw_output gdir w))
            = (let fs3 = files (snd (solve_and_parse env fzn_fn raw_output None None
                                       \<lparr>files = fs2,
                                        calls = calls w @ [Ev_run (mzn2fzn_cmd env) args None]\<rparr>))
               in if keep \<or> mzn_file = [] then fs3 else fs3 - {mzn_file}))"
proof -
  let ?w1 = "\<lparr>files = fs2, calls = calls w @ [Ev_run (mzn2fzn_cmd env) args None]\<rparr>"
  have m: "mzn2fzn env mzn_file dzn_files data gdir (w\<lparr>files := fs1\<rparr>)
           = (Inr (fzn_file, ozn_file), ?w1)"
    using mzn2fzn_tool_succeeds[OF assms(2), of "w\<lparr>files := fs1\<rparr>" out fs2] assms(3-5)
    by simp
  note mz = minizinc_after_mzn2fzn[OF assms(1) m, of fzn_fn keep raw_output]
  have A: "fst (mzn2fzn env mzn_file dzn_files data gdir (w\<lparr>files := fs1\<rparr>))
           = Inr (fzn_file, ozn_file)"
    by (simp add: m)
  have B: "calls (snd (minizinc env fzn_fn dzn_files data keep raw_output gdir w))
           = calls w @ [Ev_run (mzn2fzn_cmd env) args None, Ev_fzn_fn fzn_file]
               @ (case fst (fzn_fn fzn_file fs2) of
                    Inl e \<Rightarrow> []
                  | Inr solns \<Rightarrow>
                      [Ev_run (solns2out_cmd env) [path_arg ozn_file] (Some solns)])"
    by (simp add: mz calls_remove_mzn calls_remove_fzn_ozn calls_solve_and_parse_all)
  have C: "fzn_file = None \<and> ozn_file = None \<longrightarrow>
            files (snd (minizinc env fzn_fn dzn_files data keep raw_output gdir w))
            = (let fs3 = files (snd (solve_and_parse env fzn_fn raw_output None None ?w1))
               in if keep \<or> mzn_file = [] then fs3 else fs3 - {mzn_file})"
    by (simp add: mz files_remove_mzn remove_fzn_ozn_def Let_def)
  from A B C show ?thesis by blast
qed

theorem minizinc_hands_optional_paths_on_witness:
  "calls (snd (minizinc (sample_env flatten_ok_run) sample_solver [] None False True
                 (Some ''gecode'') \<lparr>files = {}, calls = []\<rparr>))
     = [Ev_run ''mzn2fzn'' [ArgPair ''-G'' ''gecode'', ArgStr ''m.mzn''] None,
        Ev_fzn_fn (Some ''m.fzn''),
        Ev_run ''solns2out'' [ArgStr ''m.ozn''] (Some ''x = 1;'')]
   \<and> fst (mzn2fzn (sample_env flatten_no_output_run) ''m.mzn'' [] None (Some ''gecode'')
            \<lparr>files = {''m.mzn''}, calls = []\<rparr>) = Inr (None, None)
   \<and> files (snd (minizinc (sample_env flatten_no_output_run) logging_solver [] None False True
                    (Some ''gecode'') \<lparr>files = {}, calls = []\<rparr>)) = {''solver.log''}"
  using minizinc_hands_optional_paths_on
      [where env = "sample_env flatten_ok_run" and w = "\<lparr>files = {}, calls = []\<rparr>"
         and mzn_file = "''m.mzn''" and ?fs1.0 = "{''m.mzn''}" and dzn_files = "[]"
         and data = None and gdir = "Some ''gecode''"
         and args = "[ArgPair ''-G'' ''gecode'', ArgStr ''m.mzn'']" and out = "[]"
         and ?fs2.0 = "{''m.mzn'', ''m.fzn'', ''m.ozn''}"
         and fzn_file = "Some ''m.fzn''" and ozn_file = "Some ''m.ozn''"
         and fzn_fn = sample_solver and keep = False and raw_output = True]
    minizinc_hands_optional_paths_on
      [where env = "sample_env flatten_no_output_run" and w = "\<lparr>files = {}, calls = []\<rparr>"
         and mzn_file = "''m.mzn''" and ?fs1.0 = "{''m.mzn''}" and dzn_files = "[]"
         and data = None and gdir = "Some ''gecode''"
         and args = "[ArgPair ''-G'' ''gecode'', ArgStr ''m.mzn'']" and out = "[]"
         and ?fs2.0 = "{''m.mzn''}"
         and fzn_file = None and ozn_file = None
         and fzn_fn = logging_solver and keep = False and raw_output = True]
  by (simp add: sample_defs logging_solver_def mzn2fzn_args_def splitext_root_def rfind_def
      solve_and_parse_def call_fzn_fn_def solns2out_def call_run_def eval_defs
      insert_commute)

text \<open>
  Claim C10. The three outcome errors and the wrapped failures of the two programs are
  all instances of \<open>RuntimeError\<close>: whatever \<open>solns2out\<close> raises is one of the three
  outcome errors or the \<open>RuntimeError\<close> made from the program's \<open>stderr\<close>, and a failing
  \<open>mzn2fzn\<close> program gives \<open>RuntimeError stderr\<close>. Each outcome error has no argument and
  a fixed message, and \<open>isinstance(e, RuntimeError)\<close> does not tell a wrapped failure from
  an outcome error.
\<close>
theorem pipeline_failures_are_RuntimeErrors:
  "(fst (solns2out env solns_input ozn_file w) = Inl e \<longrightarrow>
      is_RuntimeError e
      \<and> (e \<in> {MiniZincUnsatisfiableError, MiniZincUnknownError, MiniZincUnboundedError}
         \<or> (\<exists>stderr. fst (run env (solns2out_cmd env) [path_arg ozn_file] (Some solns_input)
                            (files w)) = Inl stderr \<and> e = RuntimeError stderr)))
   \<and> (mzn2fzn_args env mzn_file dzn_files data gdir = Inr args
        \<and> fst (run env (mzn2fzn_cmd env) args None (files w)) = Inl stderr
        \<longrightarrow> fst (mzn2fzn env mzn_file dzn_files data gdir w) = Inl (RuntimeError stderr)
            \<and> is_RuntimeError (RuntimeError stderr)
            \<and> runtime_message (RuntimeError stderr) = Some stderr)
   \<and> runtime_message MiniZincUnsatisfiableError = Some ''The problem is unsatisfiable.''
   \<and> runtime_message MiniZincUnknownError = Some ''The solution of the problem is unknown.''
   \<and> runtime_message MiniZincUnboundedError = Some ''The problem is unbounded.''
   \<and> is_RuntimeError (RuntimeError stderr) = is_RuntimeError MiniZincUnsatisfiableError
   \<and> is_RuntimeError (RuntimeError stderr) = is_RuntimeError MiniZincUnknownError
   \<and> is_RuntimeError (RuntimeError stderr) = is_RuntimeError MiniZincUnboundedError"
proof -
  have A: "fst (solns2out env solns_input ozn_file w) = Inl e \<longrightarrow>
      is_RuntimeError e
      \<and> (e \<in> {MiniZincUnsatisfiableError, MiniZincUnknownError, MiniZincUnboundedError}
         \<or> (\<exists>stderr. fst (run env (solns2out_cmd env) [path_arg ozn_file] (Some solns_input)
                            (files w)) = Inl stderr \<and> e = RuntimeError stderr))"
  proof
    assume h: "fst (solns2out env solns_input ozn_file w) = Inl e"
    obtain r fs where r: "run env (solns2out_cmd env) [path_arg ozn_file] (Some solns_input)
                            (files w) = (r, fs)"
      by (cases "run env (solns2out_cmd env) [path_arg ozn_file] (Some solns_input) (files w)")
    show "is_RuntimeError e
      \<and> (e \<in> {MiniZincUnsatisfiableError, MiniZincUnknownError, MiniZincUnboundedError}
         \<or> (\<exists>stderr. fst (run env (solns2out_cmd env) [path_arg ozn_file] (Some solns_input)
                            (files w)) = Inl stderr \<and> e = RuntimeError stderr))"
    proof (cases r)
      case (Inl stderr)
      with h r have "e = RuntimeError stderr"
        by (simp add: solns2out_def call_run_def)
      with r Inl show ?thesis by simp
    next
      case (Inr out)
      with h r have "scan_loop [] [] (split_nl out) = Inl e"
        by (simp add: solns2out_def call_run_def solns2out_parse_def)
      from scan_loop_raises[OF this] show ?thesis by auto
    qed
  qed
  have B: "mzn2fzn_args env mzn_file dzn_files data gdir = Inr args
        \<and> fst (run env (mzn2fzn_cmd env) args None (files w)) = Inl stderr
        \<longrightarrow> fst (mzn2fzn env mzn_file dzn_files data gdir w) = Inl (RuntimeError stderr)"
    by (cases "run env (mzn2fzn_cmd env) args None (files w)")
       (auto simp: mzn2fzn_tool_fails)
  from A B show ?thesis by simp
qed

theorem pipeline_failures_are_RuntimeErrors_witness:
  "is_RuntimeError MiniZincUnsatisfiableError
   \<and> fst (mzn2fzn (sample_env flatten_fails_run) ''m.mzn'' [] None None \<lparr>files = {}, calls = []\<rparr>)
       = Inl (RuntimeError ''m.mzn:1: syntax error'')"
  using pipeline_failures_are_RuntimeErrors
      [of "sample_env (\<lambda>c a i fs. (Inr ''=====UNSATISFIABLE====='', fs))" "[]" None
          "\<lparr>files = {}, calls = []\<rparr>" MiniZincUnsatisfiableError
          "''m.mzn''" "[]" None None "[ArgStr ''m.mzn'']" "''m.mzn:1: syntax error''"]
    pipeline_failures_are_RuntimeErrors
      [of "sample_env flatten_fails_run" "[]" None
          "\<lparr>files = {}, calls = []\<rparr>" MiniZincUnsatisfiableError
          "''m.mzn''" "[]" None None "[ArgStr ''m.mzn'']" "''m.mzn:1: syntax error''"]
  by (simp add: sample_defs mzn2fzn_args_def)

text \<open>
  Claim C4 as stated says that with \<open>keep = False\<close> none of the three files is there after
  any exit. When the \<open>mzn2fzn\<close> program fails, only the model file is removed: a file
  \<open>m.fzn\<close> that is on disk (left by an earlier run that kept its files) is still there.
\<close>
theorem stale_artifact_survives_counterexample:
  "minizinc (sample_env flatten_fails_run) sample_solver [] None False True (Some ''gecode'')
     \<lparr>files = {''m.fzn''}, calls = []\<rparr>
   = (Inl (RuntimeError ''m.mzn:1: syntax error''),
      \<lparr>files = {''m.fzn''},
       calls = [Ev_run ''mzn2fzn'' [ArgPair ''-G'' ''gecode'', ArgStr ''m.mzn''] None]\<rparr>)
   \<and> str_join ''.'' [splitext_root ''m.mzn'', ''fzn''] = ''m.fzn''"
  by (simp add: pipeline_defs sample_defs)

lemma files_remove_fzn_ozn:
  "files (remove_fzn_ozn False fzn_file ozn_file w)
   = (case fzn_file of
        None \<Rightarrow> files w - (case ozn_file of None \<Rightarrow> {} | Some z \<Rightarrow> {z} - {[]})
      | Some f \<Rightarrow>
          if f = [] then files w - (case ozn_file of None \<Rightarrow> {} | Some z \<Rightarrow> {z} - {[]})
          else if f \<in> files w
          then files w - {f} - (case ozn_file of None \<Rightarrow> {} | Some z \<Rightarrow> {z} - {[]})
          else files w)"
  by (cases fzn_file; cases ozn_file) (auto simp: remove_fzn_ozn_def os_remove_def)

lemma remove_fzn_ozn_idem:
  "remove_fzn_ozn keep fzn_file ozn_file (remove_fzn_ozn keep fzn_file ozn_file w)
   = remove_fzn_ozn keep fzn_file ozn_file w"
  by (cases fzn_file; cases ozn_file) (auto simp: remove_fzn_ozn_def os_remove_def)

lemma remove_mzn_idem:
  "remove_mzn keep mzn_file (remove_mzn keep mzn_file w) = remove_mzn keep mzn_file w"
  by (auto simp: remove_mzn_def os_remove_def)

lemma remove_absent:
  "p \<notin> files w \<Longrightarrow> remove_mzn keep p w = w"
  "p \<notin> files w \<Longrightarrow> remove_fzn_ozn keep (Some p) None w = w"
  "p \<notin> files w \<Longrightarrow> remove_fzn_ozn keep None (Some p) w = w"
  by (auto simp: remove_mzn_def remove_fzn_ozn_def os_remove_def)

lemma mzn2fzn_found:
  assumes "mzn2fzn env mzn_file dzn_files data gdir w = (Inr (fzn_file, ozn_file), w1)"
  shows "fzn_file = probe (splitext_root mzn_file) ''fzn'' w1
       \<and> ozn_file = probe (splitext_root mzn_file) ''ozn'' w1"
  using assms by (auto simp: mzn2fzn_def Let_def split: sum.splits prod.splits)

lemma probed_paths_removed_if_kept:
  assumes "fzn_file = probe base ''fzn'' w1"
    and "ozn_file = probe base ''ozn'' w1"
    and "str_join ''.'' [base, ''fzn''] \<in> files v \<longleftrightarrow> str_join ''.'' [base, ''fzn''] \<in> files w1"
    and "str_join ''.'' [base, ''ozn''] \<in> files v \<longrightarrow> str_join ''.'' [base, ''ozn''] \<in> files w1"
  shows "str_join ''.'' [base, ''fzn''] \<notin> files (remove_fzn_ozn False fzn_file ozn_file v)
       \<and> str_join ''.'' [base, ''ozn''] \<notin> files (remove_fzn_ozn False fzn_file ozn_file v)"
  unfolding files_remove_fzn_ozn using assms
  by (auto simp: probe_def isfile_def Let_def)

text \<open>
  Claim C4, as amended. With \<open>keep = False\<close>, once the model file is written it is gone
  after every exit of \<open>minizinc\<close>. When \<open>mzn2fzn\<close> raises, the model file is the only path
  removed: every other path, the flattened-constraints and output-spec paths included, is
  as \<open>mzn2fzn\<close> left it. When \<open>mzn2fzn\<close> returns and, from its return to the cleanup, the
  flattened-constraints path is neither created nor removed and the output-spec path is
  not created, neither of the two is there afterwards, whether the later stages return or
  raise. Each cleanup step is idempotent, and removing a path that is not there changes
  nothing and raises nothing.
\<close>
theorem cleanup_without_keep:
  assumes "compile_model env (files w) = (Inr mzn_file, fs1)"
    and "mzn_file \<noteq> []"
    and "mzn2fzn env mzn_file dzn_files data gdir (w\<lparr>files := fs1\<rparr>) = (r1, w1)"
  shows "mzn_file \<notin> files (snd (minizinc env fzn_fn dzn_files data False raw_output gdir w))
       \<and> (r1 = Inl e \<longrightarrow>
            fst (minizinc env fzn_fn dzn_files data False raw_output gdir w) = Inl e
            \<and> files (snd (minizinc env fzn_fn dzn_files data False raw_output gdir w))
                = files w1 - {mzn_file}
            \<and> calls (snd (minizinc env fzn_fn dzn_files data False raw_output gdir w))
                = calls w1)
       \<and> (r1 = Inr (fzn_file, ozn_file)
            \<and> (str_join ''.'' [splitext_root mzn_file, ''fzn'']
                  \<in> files (snd (solve_and_parse env fzn_fn raw_output fzn_file ozn_file w1))
                \<longleftrightarrow> str_join ''.'' [splitext_root mzn_file, ''fzn''] \<in> files w1)
            \<and> (str_join ''.'' [splitext_root mzn_file, ''ozn'']
                  \<in> files (snd (solve_and_parse env fzn_fn raw_output fzn_file ozn_file w1))
                \<longrightarrow> str_join ''.'' [splitext_root mzn_file, ''ozn''] \<in> files w1)
          \<longrightarrow> str_join ''.'' [splitext_root mzn_file, ''fzn'']
                 \<notin> files (snd (minizinc env fzn_fn dzn_files data False raw_output gdir w))
              \<and> str_join ''.'' [splitext_root mzn_file, ''ozn'']
                 \<notin> files (snd (minizinc env fzn_fn dzn_files data False raw_output gdir w)))
       \<and> remove_fzn_ozn keep f z (remove_fzn_ozn keep f z v) = remove_fzn_ozn keep f z v
       \<and> remove_mzn keep mzn_file (remove_mzn keep mzn_file v) = remove_mzn keep mzn_file v
       \<and> (p \<notin> files v \<longrightarrow> remove_mzn keep p v = v
             \<and> remove_fzn_ozn keep (Some p) None v = v
             \<and> remove_fzn_ozn keep None (Some p) v = v)"
proof -
  let ?res = "minizinc env fzn_fn dzn_files data False raw_output gdir w"
  let ?w0 = "w\<lparr>files := fs1\<rparr>"
  let ?fzn = "str_join ''.'' [splitext_root mzn_file, ''fzn'']"
  let ?ozn = "str_join ''.'' [splitext_root mzn_file, ''ozn'']"
  have fail: "?res = (Inl e', remove_mzn False mzn_file w1)" if "r1 = Inl e'" for e'
    using minizinc_mzn2fzn_raises[OF assms(1), of dzn_files data gdir e' w1] assms(3) that
    by simp
  have ok: "snd ?res = remove_mzn False mzn_file
                         (remove_fzn_ozn False a b (snd (solve_and_parse env fzn_fn raw_output a b w1)))"
    if "r1 = Inr (a, b)" for a b
    using minizinc_after_mzn2fzn[OF assms(1), of dzn_files data gdir a b w1] assms(3) that
    by simp
  have A: "mzn_file \<notin> files (snd ?res)"
  proof (cases r1)
    case (Inl e')
    then show ?thesis using fail[OF Inl] assms(2) by (simp add: files_remove_mzn)
  next
    case (Inr q)
    obtain a b where "q = (a, b)" by (cases q)
    with Inr show ?thesis using ok[of a b] assms(2) by (simp add: files_remove_mzn)
  qed
  have B: "r1 = Inl e \<longrightarrow>
            fst ?res = Inl e \<and> files (snd ?res) = files w1 - {mzn_file}
            \<and> calls (snd ?res) = calls w1"
    using fail[of e] assms(2) by (simp add: files_remove_mzn calls_remove_mzn)
  have C: "?fzn \<notin> files (snd ?res) \<and> ?ozn \<notin> files (snd ?res)"
    if r1: "r1 = Inr (fzn_file, ozn_file)"
      and kf: "?fzn \<in> files (snd (solve_and_parse env fzn_fn raw_output fzn_file ozn_file w1))
                \<longleftrightarrow> ?fzn \<in> files w1"
      and ko: "?ozn \<in> files (snd (solve_and_parse env fzn_fn raw_output fzn_file ozn_file w1))
                \<longrightarrow> ?ozn \<in> files w1"
  proof -
    from mzn2fzn_found[OF assms(3)[unfolded r1]]
    have fz: "fzn_file = probe (splitext_root mzn_file) ''fzn'' w1"
      and oz: "ozn_file = probe (splitext_root mzn_file) ''ozn'' w1" by simp_all
    from probed_paths_removed_if_kept[OF fz oz kf ko]
    show ?thesis unfolding ok[OF r1] using assms(2) by (simp add: files_remove_mzn)
  qed
  from A B C show ?thesis
    by (simp add: remove_fzn_ozn_idem remove_mzn_idem remove_absent)
qed

theorem cleanup_without_keep_witness:
  "files (snd (minizinc (sample_env flatten_ok_run) logging_solver [] None False True
                 (Some ''gecode'') \<lparr>files = {''old.txt''}, calls = []\<rparr>))
     \<inter> {''m.mzn'', ''m.fzn'', ''m.ozn''} = {}
   \<and> ''m.fzn'' \<in> files (snd (minizinc (sample_env flatten_fails_run) sample_solver [] None False True
                 (Some ''gecode'') \<lparr>files = {''m.fzn''}, calls = []\<rparr>))"
  using cleanup_without_keep
      [where env = "sample_env flatten_ok_run" and w = "\<lparr>files = {''old.txt''}, calls = []\<rparr>"
         and mzn_file = "''m.mzn''" and ?fs1.0 = "{''m.mzn'', ''old.txt''}"
         and dzn_files = "[]" and data = None and gdir = "Some ''gecode''"
         and ?r1.0 = "Inr (Some ''m.fzn'', Some ''m.ozn'')"
         and ?w1.0 = "\<lparr>files = {''m.mzn'', ''old.txt'', ''m.fzn'', ''m.ozn''},
                       calls = [Ev_run ''mzn2fzn'' [ArgPair ''-G'' ''gecode'', ArgStr ''m.mzn''] None]\<rparr>"
         and fzn_fn = logging_solver and raw_output = True
         and fzn_file = "Some ''m.fzn''" and ozn_file = "Some ''m.ozn''" and e = TypeError
         and keep = False and f = None and z = None
         and v = "\<lparr>files = {}, calls = []\<rparr>" and p = "''m.fzn''"]
    cleanup_without_keep
      [where env = "sample_env flatten_fails_run" and w = "\<lparr>files = {''m.fzn''}, calls = []\<rparr>"
         and mzn_file = "''m.mzn''" and ?fs1.0 = "{''m.mzn'', ''m.fzn''}"
         and dzn_files = "[]" and data = None and gdir = "Some ''gecode''"
         and ?r1.0 = "Inl (RuntimeError ''m.mzn:1: syntax error'')"
         and ?w1.0 = "\<lparr>files = {''m.mzn'', ''m.fzn''},
                       calls = [Ev_run ''mzn2fzn'' [ArgPair ''-G'' ''gecode'', ArgStr ''m.mzn''] None]\<rparr>"
         and fzn_fn = sample_solver and raw_output = True
         and fzn_file = None and ozn_file = None
         and e = "RuntimeError ''m.mzn:1: syntax error''"
         and keep = False and f = None and z = None
         and v = "\<lparr>files = {}, calls = []\<rparr>" and p = "''m.fzn''"]
  by (auto simp add: sample_defs logging_solver_def mzn2fzn_def mzn2fzn_args_def call_run_def
      splitext_root_def rfind_def probe_def isfile_def solve_and_parse_def call_fzn_fn_def
      solns2out_def eval_defs)

subsection \<open>Two further paths of the code\<close>

text \<open>
  With any extra data file, \<open>[mzn_file] + dzn_files\<close> adds a tuple to a list: \<open>mzn2fzn\<close>
  raises \<open>TypeError\<close> before the program is started, and nothing is changed.
\<close>

lemma dzn_files_raise_TypeError:
  "dzn_files \<noteq> [] \<Longrightarrow> mzn2fzn env mzn_file dzn_files None gdir w = (Inl TypeError, w)"
  by (simp add: mzn2fzn_def mzn2fzn_args_def Let_def)

text \<open>
  Both removals of the inner \<open>finally\<close> share one \<open>suppress\<close> block: when the
  flattened-constraints file has gone before the cleanup, the output-spec file stays.
\<close>

lemma missing_fzn_skips_ozn_removal:
  "remove_fzn_ozn False (Some ''m.fzn'') (Some ''m.ozn'') \<lparr>files = {''m.ozn''}, calls = []\<rparr>
   = \<lparr>files = {''m.ozn''}, calls = []\<rparr>"
  by (simp add: remove_fzn_ozn_def os_remove_def)

end
